theory Spec2Isabelle
  imports Complex_Main
begin

section \<open>Data model of the signaling relay\<close>

text \<open>
  The backend keeps two package-level variables, the registry \<open>clients\<close>
  (a Go map from identity to \<open>*Client\<close>) and the single \<open>matchMaker\<close>, and
  talks to the outside through websocket connections, HTTP responses and the
  structured logger.  A connection handle stands for the \<open>*websocket.Conn\<close>
  pointer; a \<open>Client\<close> is created once per upgraded connection, so two Clients
  are the same object exactly when identity and connection handle agree.
  The per-client mutex only serialises writers and has no sequential content.
\<close>

type_synonym conn = nat

type_synonym error = string

text \<open>
  A JSON value as it stands in a text frame.  A number literal denotes a
  rational number; the members of an object come in the order in which they
  are written, and a key may occur more than once.
\<close>

datatype wire =
    WNull
  | WBool bool
  | WNum rat
  | WStr string
  | WArr "wire list"
  | WObj "(string \<times> wire) list"

text \<open>
  A decoded \<open>interface{}\<close> payload.  A number is a \<open>float64\<close>, given by its
  value (the sign of zero is not kept apart); an object is a
  \<open>map[string]interface{}\<close>, given by its entries in increasing order of the
  keys, one entry for each key, which is also the order in which the encoder
  writes them.
\<close>

datatype json =
    JNull
  | JBool bool
  | JNum rat
  | JStr string
  | JArr "json list"
  | JObj "(string \<times> json) list"

text \<open>
  The nearest \<open>float64\<close> to a rational, ties going to the even significand,
  as \<open>strconv.ParseFloat\<close> finds it for a number literal: a significand \<open>m\<close>
  of at most 53 bits and an exponent \<open>e\<close> of its last bit, from \<open>-1074\<close>
  (subnormal numbers) on.  The value \<open>m * 2 ^ e\<close> stays below \<open>2 ^ 1024\<close>
  exactly when \<open>e < 971\<close>, or \<open>e = 971\<close> and \<open>m < 2 ^ 53\<close>; otherwise the
  literal is out of range (\<open>None\<close>).
\<close>

function bits :: "int \<Rightarrow> int" where
  "bits n = (if n \<le> 0 then 0 else 1 + bits (n div 2))"
  by pat_completeness auto
termination
  by (relation "measure nat") auto

definition pow2 :: "int \<Rightarrow> rat" where
  "pow2 k = (if 0 \<le> k then 2 ^ nat k else 1 / 2 ^ nat (- k))"

text \<open>The integer part of the binary logarithm of a positive rational.\<close>

definition ilog2 :: "rat \<Rightarrow> int" where
  "ilog2 a = (if 1 \<le> a then bits \<lfloor>a\<rfloor> - 1 else - bits (\<lceil>1 / a\<rceil> - 1))"

definition round_even :: "rat \<Rightarrow> int" where
  "round_even y =
     (let f = \<lfloor>y\<rfloor>; r = y - of_int f
      in if r < 1 / 2 then f else if 1 / 2 < r then f + 1 else if even f then f else f + 1)"

definition round64 :: "rat \<Rightarrow> rat option" where
  "round64 x =
     (if x = 0 then Some 0
      else let a = \<bar>x\<bar>;
               e = max (ilog2 a - 52) (- 1074);
               m = round_even (a / pow2 e)
           in if 971 < e \<or> (e = 971 \<and> 2 ^ 53 \<le> m) then None
              else Some (sgn x * of_int m * pow2 e))"

text \<open>Keys are ordered as Go orders strings, byte by byte.\<close>

fun key_less :: "string \<Rightarrow> string \<Rightarrow> bool" where
  "key_less [] [] = False"
| "key_less [] (y # ys) = True"
| "key_less (x # xs) [] = False"
| "key_less (x # xs) (y # ys) = ((of_char x :: nat) < of_char y \<or> (x = y \<and> key_less xs ys))"

text \<open>The assignment \<open>m[k] = v\<close> on a map given by its ordered entries.\<close>

fun map_put :: "string \<Rightarrow> 'v \<Rightarrow> (string \<times> 'v) list \<Rightarrow> (string \<times> 'v) list" where
  "map_put k v [] = [(k, v)]"
| "map_put k v ((k', v') # m) =
     (if k = k' then (k, v) # m
      else if key_less k k' then (k, v) # (k', v') # m
      else (k', v') # map_put k v m)"

text \<open>
  Decoding into \<open>interface{}\<close>: numbers are rounded to \<open>float64\<close>, the members
  of an object are assigned to a map one after the other, so that the last of
  several members with one key stays.  The decoder reports an error, here
  \<open>None\<close>, when a number is out of range.
\<close>

primrec decode :: "wire \<Rightarrow> json option" where
  "decode WNull = Some JNull"
| "decode (WBool b) = Some (JBool b)"
| "decode (WNum x) = map_option JNum (round64 x)"
| "decode (WStr t) = Some (JStr t)"
| "decode (WArr xs) =
     (if list_all (\<lambda>y. y \<noteq> None) (map decode xs)
      then Some (JArr (map the (map decode xs))) else None)"
| "decode (WObj ms) =
     (if list_all (\<lambda>y. snd y \<noteq> None) (map (map_prod id decode) ms)
      then Some (JObj (fold (\<lambda>y. map_put (fst y) (the (snd y))) (map (map_prod id decode) ms) []))
      else None)"

record Message =
  Type :: string
  Payload :: json
  To :: string
  From :: string

record Client =
  ID :: string
  Conn :: conn

datatype level = LevelInfo | LevelWarn | LevelError

text \<open>
  What the server does to the outside world, in program order: a log record
  (message and string attributes), an HTTP error response, a completed
  protocol upgrade, an attempted JSON frame write together with its result,
  the read limit and the read deadline set on a connection, an attempted
  control frame write (message type, data, deadline, result), and the closing
  of a connection.  Times are clock readings in nanoseconds.
\<close>

datatype effect =
    Slog level string "(string \<times> string) list"
  | HttpError string nat
  | Upgrade conn
  | WriteJSON conn Message "error option"
  | SetReadLimit conn nat
  | SetReadDeadline conn int
  | WriteControl conn nat string int "error option"
  | Close conn

text \<open>
  \<open>queue\<close> is the slice of waiting clients; \<open>notify\<close> is the channel of
  capacity one, \<open>True\<close> when a wake-up token is buffered.
\<close>

record MatchMaker =
  queue :: "Client list"
  notify :: bool

record State =
  clients :: "string \<rightharpoonup> Client"
  matchMaker :: MatchMaker
  out :: "effect list"

text \<open>
  The transport decides whether a write succeeds: \<open>net c v\<close> is the error
  returned by writing frame \<open>v\<close> on connection \<open>c\<close>, \<open>None\<close> for Go's \<open>nil\<close>.
\<close>

type_synonym net = "conn \<Rightarrow> Message \<Rightarrow> error option"

definition StatusUnauthorized :: nat where
  "StatusUnauthorized = 401"

definition NewMatchMaker :: MatchMaker where
  "NewMatchMaker = \<lparr>queue = [], notify = False\<rparr>"

definition init :: State where
  "init = \<lparr>clients = Map.empty, matchMaker = NewMatchMaker, out = []\<rparr>"

definition slog :: "level \<Rightarrow> string \<Rightarrow> (string \<times> string) list \<Rightarrow> State \<Rightarrow> State" where
  "slog l msg attrs s = s\<lparr>out := out s @ [Slog l msg attrs]\<rparr>"

text \<open>
  \<open>Conn.WriteJSON\<close>: one frame is handed to the connection and the result is
  returned.  \<open>Client.WriteJSON\<close> is the same write under the client's mutex.
\<close>

definition Conn_WriteJSON :: "net \<Rightarrow> conn \<Rightarrow> Message \<Rightarrow> State \<Rightarrow> error option \<times> State" where
  "Conn_WriteJSON net k v s = (net k v, s\<lparr>out := out s @ [WriteJSON k v (net k v)]\<rparr>)"

definition Client_WriteJSON :: "net \<Rightarrow> Client \<Rightarrow> Message \<Rightarrow> State \<Rightarrow> error option \<times> State" where
  "Client_WriteJSON net c v s = Conn_WriteJSON net (Conn c) v s"

section \<open>Match maker\<close>

text \<open>\<open>MatchMaker.Add\<close>: append at the tail, then a non-blocking send on \<open>notify\<close>.\<close>

definition Add :: "Client \<Rightarrow> State \<Rightarrow> State" where
  "Add c s =
     slog LevelInfo ''Adding client to match queue'' [(''client_id'', ID c)]
       (s\<lparr>matchMaker := (matchMaker s)\<lparr>queue := queue (matchMaker s) @ [c], notify := True\<rparr>\<rparr>)"

text \<open>
  The \<open>range\<close> loop of \<open>MatchMaker.Remove\<close>, from index \<open>i\<close> on: the first entry
  whose \<open>ID\<close> equals that of \<open>c\<close> is cut out with
  \<open>append(queue[:i], queue[i+1:]...)\<close> and the method returns at once.
  The result is the new slice, and whether an entry was removed.
\<close>

function Remove_loop :: "nat \<Rightarrow> Client \<Rightarrow> Client list \<Rightarrow> Client list \<times> bool" where
  "Remove_loop i c q =
     (if i < length q
      then (if ID (q ! i) = ID c then (take i q @ drop (i + 1) q, True)
            else Remove_loop (i + 1) c q)
      else (q, False))"
  by pat_completeness auto
termination
  by (relation "measure (\<lambda>(i, c, q). length q - i)") auto

definition Remove :: "Client \<Rightarrow> State \<Rightarrow> State" where
  "Remove c s =
     (case Remove_loop 0 c (queue (matchMaker s)) of
        (q', True) \<Rightarrow>
          slog LevelInfo ''Removed client from match queue'' [(''client_id'', ID c)]
            (s\<lparr>matchMaker := (matchMaker s)\<lparr>queue := q'\<rparr>\<rparr>)
      | (q', False) \<Rightarrow> s)"

text \<open>
  \<open>MatchMaker.Run\<close> never returns.  One turn of its loop touches the shared
  state at three separate points, and other goroutines may run in between, so
  the loop is a step function over the place where the goroutine stands:
  waiting on \<open>notify\<close>; token received, about to enter the first critical
  section; two clients popped, about to notify them and to re-check the pool.
  The two writes neither read nor change the pool, so they are taken together
  with the second critical section.  \<open>None\<close> means the goroutine is blocked.
\<close>

datatype run_pc = Waiting | Received | Popped Client Client

definition match_msg :: "string \<Rightarrow> Message" where
  "match_msg peer = \<lparr>Type = ''match'', Payload = JStr peer, To = [], From = []\<rparr>"

definition Run_notify :: "net \<Rightarrow> Client \<Rightarrow> Client \<Rightarrow> State \<Rightarrow> State" where
  "Run_notify net c1 c2 s =
     (let s0 = slog LevelInfo ''Matching clients'' [(''client1'', ID c1), (''client2'', ID c2)] s;
          (err1, s1) = Client_WriteJSON net c1 (match_msg (ID c2)) s0;
          (err2, s2) = Client_WriteJSON net c2 (match_msg (ID c1)) s1;
          s3 = (case err1 of None \<Rightarrow> s2
                | Some e \<Rightarrow> slog LevelError ''Failed to send match to client 1''
                              [(''client_id'', ID c1), (''error'', e)] s2);
          s4 = (case err2 of None \<Rightarrow> s3
                | Some e \<Rightarrow> slog LevelError ''Failed to send match to client 2''
                              [(''client_id'', ID c2), (''error'', e)] s3)
      in if length (queue (matchMaker s4)) \<ge> 2
         then s4\<lparr>matchMaker := (matchMaker s4)\<lparr>notify := True\<rparr>\<rparr>
         else s4)"

fun Run_step :: "net \<Rightarrow> State \<Rightarrow> run_pc \<Rightarrow> (State \<times> run_pc) option" where
  "Run_step net s Waiting =
     (if notify (matchMaker s)
      then Some (s\<lparr>matchMaker := (matchMaker s)\<lparr>notify := False\<rparr>\<rparr>, Received)
      else None)"
| "Run_step net s Received =
     (if length (queue (matchMaker s)) < 2 then Some (s, Waiting)
      else Some (s\<lparr>matchMaker := (matchMaker s)\<lparr>queue := drop 2 (queue (matchMaker s))\<rparr>\<rparr>,
                 Popped (queue (matchMaker s) ! 0) (queue (matchMaker s) ! 1)))"
| "Run_step net s (Popped c1 c2) = Some (Run_notify net c1 c2 s, Waiting)"

text \<open>
  The pool is reached by three kinds of goroutine: connection handlers that
  call \<open>Add\<close> and \<open>Remove\<close>, and the one \<open>Run\<close> loop.  A schedule is a list
  of events; a \<open>Run\<close> event at which the loop is blocked changes nothing.
\<close>

datatype event = EvAdd Client | EvRemove Client | EvRun

fun step :: "net \<Rightarrow> event \<Rightarrow> State \<times> run_pc \<Rightarrow> State \<times> run_pc" where
  "step net (EvAdd c) (s, pc) = (Add c s, pc)"
| "step net (EvRemove c) (s, pc) = (Remove c s, pc)"
| "step net EvRun (s, pc) = (case Run_step net s pc of None \<Rightarrow> (s, pc) | Some x \<Rightarrow> x)"

definition exec :: "net \<Rightarrow> event list \<Rightarrow> State \<times> run_pc \<Rightarrow> State \<times> run_pc" where
  "exec net evs x = fold (step net) evs x"

text \<open>The pairings announced so far, read off the log of the \<open>Run\<close> loop.\<close>

fun pairings :: "effect list \<Rightarrow> (string \<times> string) list" where
  "pairings [] = []"
| "pairings (Slog l msg [(k1, a), (k2, b)] # es) =
     (if msg = ''Matching clients'' then (a, b) # pairings es else pairings es)"
| "pairings (e # es) = pairings es"

text \<open>The frame writes attempted so far: connection, frame and result.\<close>

fun writes :: "effect list \<Rightarrow> (conn \<times> Message \<times> error option) list" where
  "writes [] = []"
| "writes (WriteJSON k v r # es) = (k, v, r) # writes es"
| "writes (e # es) = writes es"

text \<open>The protocol upgrades and the HTTP error responses so far.\<close>

fun upgrades :: "effect list \<Rightarrow> conn list" where
  "upgrades [] = []"
| "upgrades (Upgrade k # es) = k # upgrades es"
| "upgrades (e # es) = upgrades es"

fun http_errors :: "effect list \<Rightarrow> (string \<times> nat) list" where
  "http_errors [] = []"
| "http_errors (HttpError body code # es) = (body, code) # http_errors es"
| "http_errors (e # es) = http_errors es"

section \<open>Message router\<close>

text \<open>
  \<open>handleMessage\<close>: nothing happens for an empty \<open>To\<close> or an identity that the
  registry does not hold; otherwise the message is written to the target,
  and a failed write is logged.  The function returns no value.
\<close>

definition handleMessage :: "net \<Rightarrow> Message \<Rightarrow> State \<Rightarrow> State" where
  "handleMessage net msg s =
     (if To msg = [] then s
      else case clients s (To msg) of
             None \<Rightarrow> s
           | Some target \<Rightarrow>
               (case Client_WriteJSON net target msg s of
                  (None, s') \<Rightarrow> s'
                | (Some err, s') \<Rightarrow>
                    slog LevelError ''Failed to send message'' [(''to'', To msg), (''error'', err)] s'))"

section \<open>Connection handler\<close>

text \<open>
  Of the upgrade request the handler reads the \<open>token\<close> query parameter, the
  \<open>Authorization\<close> header (both \<open>[]\<close> when absent) and the remote address.
\<close>

record Request =
  query_token :: string
  Authorization :: string
  RemoteAddr :: string

text \<open>The verified token, of which only the subject is read.\<close>

record idtoken_Payload =
  Subject :: string

text \<open>\<open>idtoken.Validate\<close> is an external verifier and a parameter of the model.\<close>

type_synonym validator = "string \<Rightarrow> error + idtoken_Payload"

definition HasPrefix :: "string \<Rightarrow> string \<Rightarrow> bool" where
  "HasPrefix s p = (length s \<ge> length p \<and> take (length p) s = p)"

definition TrimPrefix :: "string \<Rightarrow> string \<Rightarrow> string" where
  "TrimPrefix s p = (if HasPrefix s p then drop (length p) s else s)"

text \<open>Step 1 of \<open>handleConnections\<close>: the query parameter, else the bearer header.\<close>

definition request_token :: "Request \<Rightarrow> string" where
  "request_token r =
     (if query_token r = []
      then (if HasPrefix (Authorization r) ''Bearer ''
            then TrimPrefix (Authorization r) ''Bearer '' else [])
      else query_token r)"

text \<open>
  Steps 1 to 3: the identity of the caller, or \<open>None\<close> after an HTTP error
  response has been written and the handler has returned.
\<close>

definition authenticate :: "validator \<Rightarrow> Request \<Rightarrow> State \<Rightarrow> string option \<times> State" where
  "authenticate Validate r s =
     (let token = request_token r in
      if token = []
      then (None,
            slog LevelWarn ''Connection attempt without token'' [(''remote_addr'', RemoteAddr r)]
              (s\<lparr>out := out s @ [HttpError ''Missing authentication token'' StatusUnauthorized]\<rparr>))
      else case Validate token of
             Inl err \<Rightarrow>
               (let s1 = slog LevelError ''Token validation failed''
                           [(''error'', err), (''remote_addr'', RemoteAddr r)] s;
                    s2 = slog LevelInfo ''JWT Token expired or invalid''
                           [(''token_snippet'', take (min 10 (length token)) token @ ''...'')] s1
                in (None, s2\<lparr>out := out s2 @ [HttpError ''Invalid token'' StatusUnauthorized]\<rparr>))
           | Inr payload \<Rightarrow>
               (if Subject payload = []
                then (let s1 = slog LevelError ''Token payload missing subject''
                                 [(''remote_addr'', RemoteAddr r)] s
                      in (None, s1\<lparr>out := out s1 @ [HttpError ''Invalid token claims'' StatusUnauthorized]\<rparr>))
                else (Some (Subject payload), s)))"

definition init_msg :: "string \<Rightarrow> Message" where
  "init_msg clientID = \<lparr>Type = ''init'', Payload = JStr clientID, To = [], From = []\<rparr>"

text \<open>
  After the upgrade: the client is stored in the registry under its identity,
  is sent its identity, and joins the match queue.
\<close>

definition register :: "net \<Rightarrow> Client \<Rightarrow> State \<Rightarrow> State" where
  "register net client s =
     (let s1 = s\<lparr>clients := (clients s)(ID client \<mapsto> client)\<rparr>;
          s2 = slog LevelInfo ''Client connected (Authenticated)'' [(''client_id'', ID client)] s1;
          (err, s3) = Client_WriteJSON net client (init_msg (ID client)) s2
      in Add client s3)"

text \<open>
  One turn of the read loop on a decoded message: the sender field is set to
  the identity of the connection and the message goes to \<open>handleMessage\<close>.
\<close>

definition on_message :: "net \<Rightarrow> string \<Rightarrow> Message \<Rightarrow> State \<Rightarrow> State" where
  "on_message net clientID msg s = handleMessage net (msg\<lparr>From := clientID\<rparr>) s"

text \<open>
  The time constants, in nanoseconds as \<open>time.Duration\<close> counts them.  The
  write deadline that \<open>Client.WriteJSON\<close> sets before each write bounds how
  long the write may take; a write that misses it is a failed write of \<open>net\<close>.
\<close>

definition Second :: int where
  "Second = 1000000000"

definition writeWait :: int where
  "writeWait = 10 * Second"

definition pongWait :: int where
  "pongWait = 60 * Second"

definition pingPeriod :: int where
  "pingPeriod = (pongWait * 9) div 10"

text \<open>
  What \<open>ReadJSON\<close> returns on each call: a decoded message, or an error
  together with the verdict of \<open>IsUnexpectedCloseError\<close> on it.
\<close>

datatype read_result = ReadMsg Message | ReadErr error bool

text \<open>
  The read loop over the results of successive reads.  It leaves at the first
  error (\<open>True\<close>); when the results run out the handler is still blocked in
  \<open>ReadJSON\<close> (\<open>False\<close>).
\<close>

fun read_loop :: "net \<Rightarrow> string \<Rightarrow> read_result list \<Rightarrow> State \<Rightarrow> State \<times> bool" where
  "read_loop net clientID [] s = (s, False)"
| "read_loop net clientID (ReadErr err unexpected # rs) s =
     (if unexpected
      then (slog LevelError ''WebSocket error'' [(''client_id'', clientID), (''error'', err)] s, True)
      else (slog LevelInfo ''Client disconnected (ReadJSON)'' [(''client_id'', clientID)] s, True))"
| "read_loop net clientID (ReadMsg msg # rs) s =
     read_loop net clientID rs (on_message net clientID msg s)"

text \<open>
  A text frame that holds a message: a JSON object whose members \<open>type\<close>,
  \<open>to\<close> and \<open>from\<close> are strings (empty when the member is absent) and whose
  member \<open>payload\<close> is any JSON value (\<open>null\<close> when absent).  A frame of any
  other shape makes \<open>ReadJSON\<close> fail and counts as a failed read below.
\<close>

record Frame =
  f_type :: string
  f_payload :: wire
  f_to :: string
  f_from :: string

text \<open>Decoding a frame into a \<open>Message\<close>, as \<open>ReadJSON\<close> does.\<close>

definition Unmarshal :: "Frame \<Rightarrow> error + Message" where
  "Unmarshal f =
     (case decode (f_payload f) of
        None \<Rightarrow> Inl ''json: cannot unmarshal number into Go value of type float64''
      | Some p \<Rightarrow> Inr \<lparr>Type = f_type f, Payload = p, To = f_to f, From = f_from f\<rparr>)"

text \<open>
  Before the read loop starts, the handler limits the size of a message and
  sets the read deadline one \<open>pongWait\<close> after the current time \<open>now\<close>; the pong
  handler that it installs does the latter again whenever a pong arrives.
\<close>

definition read_limits :: "conn \<Rightarrow> int \<Rightarrow> State \<Rightarrow> State" where
  "read_limits k now s =
     s\<lparr>out := out s @ [SetReadLimit k 8192, SetReadDeadline k (now + pongWait)]\<rparr>"

definition pong_handler :: "conn \<Rightarrow> int \<Rightarrow> State \<Rightarrow> State" where
  "pong_handler k now s = s\<lparr>out := out s @ [SetReadDeadline k (now + pongWait)]\<rparr>"

text \<open>
  The read deadline of a connection is the one set last.  The transport fails
  every read on a connection once the clock has passed its read deadline.
\<close>

fun read_deadline :: "conn \<Rightarrow> effect list \<Rightarrow> int option" where
  "read_deadline k [] = None"
| "read_deadline k (e # es) =
     (case read_deadline k es of
        Some d \<Rightarrow> Some d
      | None \<Rightarrow> (case e of SetReadDeadline k' d \<Rightarrow> if k' = k then Some d else None | _ \<Rightarrow> None))"

definition expired :: "conn \<Rightarrow> int \<Rightarrow> State \<Rightarrow> bool" where
  "expired k now s = (case read_deadline k (out s) of None \<Rightarrow> False | Some d \<Rightarrow> d < now)"

text \<open>
  What reaches a connection, each with the clock reading at that moment: a
  message frame, a pong, a failure (the connection is closed or broken, or a
  frame is over the read limit or not of the shape of a message; with the
  verdict of \<open>IsUnexpectedCloseError\<close> on the error), or nothing at all up to
  that moment.
\<close>

datatype arrival = Frame Frame | Pong | Broken error bool | Quiet

text \<open>
  The read loop as the transport drives it.  While the handler is blocked in
  \<open>ReadJSON\<close>, a pong runs the pong handler and the read goes on; a frame is
  decoded and returned, or the decoding error is; a failure of the transport
  is returned; and once the read deadline has passed the read returns a
  timeout, which is not a close error.  Each returned result is one turn of
  \<open>read_loop\<close>.
\<close>

fun serve :: "net \<Rightarrow> Client \<Rightarrow> (int \<times> arrival) list \<Rightarrow> State \<Rightarrow> State \<times> bool" where
  "serve net c [] s = (s, False)"
| "serve net c ((t, a) # rest) s =
     (if expired (Conn c) t s then read_loop net (ID c) [ReadErr ''i/o timeout'' False] s
      else case a of
             Pong \<Rightarrow> serve net c rest (pong_handler (Conn c) t s)
           | Quiet \<Rightarrow> serve net c rest s
           | Broken err unexpected \<Rightarrow> read_loop net (ID c) [ReadErr err unexpected] s
           | Frame f \<Rightarrow>
               (case Unmarshal f of
                  Inl err \<Rightarrow> read_loop net (ID c) [ReadErr err False] s
                | Inr msg \<Rightarrow> serve net c rest (fst (read_loop net (ID c) [ReadMsg msg] s))))"

text \<open>
  The heartbeat goroutine: at every tick of a ticker with period \<open>pingPeriod\<close>,
  started at time \<open>t\<close>, a ping is written with a write deadline; the goroutine
  returns (\<open>True\<close>) at the first ping that fails.  \<open>ctl k now\<close> is the result of a
  control write on connection \<open>k\<close> at time \<open>now\<close>; the number of ticks seen so
  far bounds the run.
\<close>

type_synonym ctl = "conn \<Rightarrow> int \<Rightarrow> error option"

definition PingMessage :: nat where
  "PingMessage = 9"

definition Client_WriteControl ::
  "ctl \<Rightarrow> Client \<Rightarrow> nat \<Rightarrow> string \<Rightarrow> int \<Rightarrow> int \<Rightarrow> State \<Rightarrow> error option \<times> State" where
  "Client_WriteControl ctl c messageType data deadline now s =
     (ctl (Conn c) now,
      s\<lparr>out := out s @ [WriteControl (Conn c) messageType data deadline (ctl (Conn c) now)]\<rparr>)"

fun heartbeat :: "ctl \<Rightarrow> Client \<Rightarrow> int \<Rightarrow> nat \<Rightarrow> State \<Rightarrow> State \<times> bool" where
  "heartbeat ctl client t 0 s = (s, False)"
| "heartbeat ctl client t (Suc n) s =
     (let now = t + pingPeriod;
          (err, s1) = Client_WriteControl ctl client PingMessage [] (now + writeWait) now s
      in case err of
           Some e \<Rightarrow>
             (slog LevelInfo ''Ping failed, closing connection''
                [(''client_id'', ID client), (''error'', e)] s1, True)
         | None \<Rightarrow> heartbeat ctl client now n s1)"

text \<open>
  The deferred calls, in the order in which they run when the handler returns:
  the registry entry of the identity is deleted, the client is removed from
  the match queue, and the connection is closed.
\<close>

definition cleanup :: "Client \<Rightarrow> State \<Rightarrow> State" where
  "cleanup client s =
     (let s1 = s\<lparr>clients := (clients s)(ID client := None)\<rparr>;
          s2 = Remove client s1;
          s3 = slog LevelInfo ''Client fully disconnected'' [(''client_id'', ID client)] s2
      in s3\<lparr>out := out s3 @ [Close (Conn client)]\<rparr>)"

text \<open>
  The whole handler for one request, run without interference from other
  goroutines.  \<open>upgrade\<close> is the result of \<open>upgrader.Upgrade\<close>: the new
  connection, or the error together with the HTTP error response (body and
  status) that the upgrader has written before it returns the error.  \<open>now\<close>
  is the time at which the read deadline is first set, and \<open>arrivals\<close> is what
  reaches the new connection.  The heartbeat goroutine that the handler
  starts runs beside it and is the function \<open>heartbeat\<close>.
\<close>

definition handleConnections ::
  "validator \<Rightarrow> net \<Rightarrow> (error \<times> string \<times> nat) + conn \<Rightarrow> int \<Rightarrow> (int \<times> arrival) list \<Rightarrow>
   Request \<Rightarrow> State \<Rightarrow> State" where
  "handleConnections Validate net upgrade now arrivals r s =
     (case authenticate Validate r s of
        (None, s1) \<Rightarrow> s1
      | (Some userID, s1) \<Rightarrow>
          (case upgrade of
             Inl (err, body, code) \<Rightarrow>
               slog LevelError ''WebSocket upgrade failed'' [(''error'', err)]
                 (s1\<lparr>out := out s1 @ [HttpError body code]\<rparr>)
           | Inr k \<Rightarrow>
               (let client = \<lparr>ID = userID, Conn = k\<rparr>;
                    s2 = read_limits k now (register net client (s1\<lparr>out := out s1 @ [Upgrade k]\<rparr>));
                    (s3, left) = serve net client arrivals s2
                in if left then cleanup client s3 else s3)))"

section \<open>The earlier matching loop with a pending slot\<close>

text \<open>
  \<open>backend/main.go\<close> pairs clients taken one by one from the channel
  \<open>matchQueue\<close> and keeps at most one of them pending.
\<close>

definition isClientActive :: "Client \<Rightarrow> State \<Rightarrow> bool" where
  "isClientActive c s = (case clients s (ID c) of None \<Rightarrow> False | Some activeClient \<Rightarrow> activeClient = c)"

text \<open>
  The body of \<open>matchingLoop\<close> for one client received from the channel; the
  result is the new value of \<open>pending\<close>.
\<close>

definition matchingLoop_body :: "net \<Rightarrow> Client option \<Rightarrow> Client \<Rightarrow> State \<Rightarrow> Client option \<times> State" where
  "matchingLoop_body net pending client s =
     (if \<not> isClientActive client s
      then (pending, slog LevelInfo ''Skipping disconnected client'' [(''client_id'', ID client)] s)
      else case pending of
        None \<Rightarrow> (Some client, s)
      | Some p \<Rightarrow>
          if \<not> isClientActive p s
          then (Some client,
                slog LevelInfo ''Pending client disconnected, replacing with new client''
                  [(''old_pending'', ID p), (''new_pending'', ID client)] s)
          else if ID p = ID client
          then (pending, slog LevelInfo ''Skipping self-match'' [(''client_id'', ID client)] s)
          else
            (let s0 = slog LevelInfo ''Matching clients'' [(''client1'', ID p), (''client2'', ID client)] s;
                 (err1, s1) = Conn_WriteJSON net (Conn p) (match_msg (ID client)) s0
             in case err1 of
                  Some e1 \<Rightarrow>
                    (Some client,
                     slog LevelError ''Failed to send match to pending client''
                       [(''client_id'', ID p), (''error'', e1)] s1)
                | None \<Rightarrow>
                    (let (err2, s2) = Conn_WriteJSON net (Conn client) (match_msg (ID p)) s1
                     in case err2 of
                          Some e2 \<Rightarrow>
                            (None,
                             slog LevelError ''Failed to send match to new client''
                               [(''client_id'', ID client), (''error'', e2)] s2)
                        | None \<Rightarrow> (None, s2))))"

text \<open>The loop over the clients that arrive on the channel.\<close>

fun matchingLoop :: "net \<Rightarrow> Client option \<Rightarrow> Client list \<Rightarrow> State \<Rightarrow> Client option \<times> State" where
  "matchingLoop net pending [] s = (pending, s)"
| "matchingLoop net pending (client # rest) s =
     (case matchingLoop_body net pending client s of
        (pending', s') \<Rightarrow> matchingLoop net pending' rest s')"

section \<open>Statements of the specification\<close>

text \<open>
  The results that the successive reads return when the read deadline is
  \<open>d\<close> and each pong moves it to one \<open>pongWait\<close> after the pong.
\<close>

fun read_results :: "int option \<Rightarrow> (int \<times> arrival) list \<Rightarrow> read_result list" where
  "read_results d [] = []"
| "read_results d ((t, a) # rest) =
     (if (case d of None \<Rightarrow> False | Some d' \<Rightarrow> d' < t) then [ReadErr ''i/o timeout'' False]
      else case a of
             Pong \<Rightarrow> read_results (Some (t + pongWait)) rest
           | Quiet \<Rightarrow> read_results d rest
           | Broken err unexpected \<Rightarrow> [ReadErr err unexpected]
           | Frame f \<Rightarrow>
               (case Unmarshal f of
                  Inl err \<Rightarrow> [ReadErr err False]
                | Inr msg \<Rightarrow> ReadMsg msg # read_results d rest))"

text \<open>
  The deliveries that the specification asks of a connection whose decoded
  reads are \<open>rs\<close>: every message read before the first failure, addressed to a
  registered identity, reaches that identity's connection with the same type,
  payload and destination and with the connection's own identity as sender.
\<close>

fun spec_deliveries ::
  "net \<Rightarrow> (string \<rightharpoonup> Client) \<Rightarrow> string \<Rightarrow> read_result list \<Rightarrow> (conn \<times> Message \<times> error option) list" where
  "spec_deliveries net registry sender [] = []"
| "spec_deliveries net registry sender (ReadErr err unexpected # rs) = []"
| "spec_deliveries net registry sender (ReadMsg m # rs) =
     (let d = \<lparr>Type = Type m, Payload = Payload m, To = To m, From = sender\<rparr> in
      case (if To m = [] then None else registry (To m)) of
        None \<Rightarrow> spec_deliveries net registry sender rs
      | Some target \<Rightarrow> (Conn target, d, net (Conn target) d) # spec_deliveries net registry sender rs)"

text \<open>
  A request is rejected with \<open>body\<close> when exactly one HTTP error response with
  status unauthorized is added, no upgrade and no frame write happens, and
  registry and match maker stay as they were.
\<close>

definition rejected_with :: "string \<Rightarrow> State \<Rightarrow> State \<Rightarrow> bool" where
  "rejected_with body s s' \<longleftrightarrow>
     http_errors (out s') = http_errors (out s) @ [(body, StatusUnauthorized)] \<and>
     upgrades (out s') = upgrades (out s) \<and>
     writes (out s') = writes (out s) \<and>
     clients s' = clients s \<and>
     matchMaker s' = matchMaker s"

section \<open>Invariants of the pool\<close>


section \<open>Concrete clients for the example runs\<close>

text \<open>
  Two connections of the same user, one of another user, and a transport on
  which every write succeeds.
\<close>

definition alice1 :: Client where
  "alice1 = \<lparr>ID = ''alice'', Conn = 1\<rparr>"

definition alice2 :: Client where
  "alice2 = \<lparr>ID = ''alice'', Conn = 2\<rparr>"

definition bob :: Client where
  "bob = \<lparr>ID = ''bob'', Conn = 3\<rparr>"

definition all_up :: net where
  "all_up k v = None"

text \<open>
  Transports on which one connection is broken, two decoded messages (the
  first with a forged sender), three frames, a token verifier, three upgrade
  requests, and states of the server: after alice and bob have registered
  (\<open>lobby\<close>), after one user has registered twice (\<open>two_tabs\<close>), and after
  one and after two whole handler runs for alice's token, each still blocked
  in its read (\<open>first_tab\<close>, \<open>both_tabs\<close>).
\<close>

definition alice_down :: net where
  "alice_down k v = (if k = 1 then Some ''broken pipe'' else None)"

definition bob_down :: net where
  "bob_down k v = (if k = 3 then Some ''broken pipe'' else None)"

definition offer :: Message where
  "offer = \<lparr>Type = ''offer'', Payload = JObj [(''sdp'', JStr ''v=0'')], To = ''bob'', From = ''mallory''\<rparr>"

definition bye :: Message where
  "bye = \<lparr>Type = ''bye'', Payload = JObj [], To = ''bob'', From = []\<rparr>"





definition lobby :: State where
  "lobby = register all_up bob (register all_up alice1 init)"

definition google :: validator where
  "google token =
     (if token = ''tok-alice'' then Inr \<lparr>Subject = ''alice''\<rparr>
      else if token = ''tok-bob'' then Inr \<lparr>Subject = ''bob''\<rparr>
      else if token = ''tok-anon'' then Inr \<lparr>Subject = []\<rparr>
      else Inl ''idtoken: invalid token'')"

definition alice_request :: Request where
  "alice_request = \<lparr>query_token = ''tok-alice'', Authorization = ''Bearer tok-bob'', RemoteAddr = ''10.0.0.1''\<rparr>"

definition header_request :: Request where
  "header_request = \<lparr>query_token = [], Authorization = ''Bearer tok-bob'', RemoteAddr = ''10.0.0.2''\<rparr>"

definition basic_request :: Request where
  "basic_request = \<lparr>query_token = [], Authorization = ''Basic Zm9v'', RemoteAddr = ''10.0.0.3''\<rparr>"

definition first_tab :: State where
  "first_tab = handleConnections google all_up (Inr 1) 0 [] alice_request init"

definition both_tabs :: State where
  "both_tabs = handleConnections google all_up (Inr 2) 0 [] alice_request first_tab"

definition two_tabs :: State where
  "two_tabs = register all_up alice2 (register all_up alice1 init)"

section \<open>Removal from the pool\<close>

declare Remove_loop.simps [simp del]

lemma Remove_loop_none:
  "\<forall>y\<in>set (drop i q). ID y \<noteq> ID c \<Longrightarrow> Remove_loop i c q = (q, False)"
proof (induction i c q rule: Remove_loop.induct)
  case (1 i c q)
  show ?case
  proof (cases "i < length q")
    case True
    then have "q ! i \<in> set (drop i q)"
      by (metis Cons_nth_drop_Suc list.set_intros(1))
    with "1.prems" have ne: "ID (q ! i) \<noteq> ID c" by blast
    have "set (drop (i + 1) q) \<subseteq> set (drop i q)"
      by (simp add: set_drop_subset_set_drop)
    with "1.prems" have "\<forall>y\<in>set (drop (i + 1) q). ID y \<noteq> ID c" by blast
    with "1.IH" True ne have "Remove_loop (i + 1) c q = (q, False)" by blast
    with True ne show ?thesis by (subst Remove_loop.simps) simp
  next
    case False
    then show ?thesis by (subst Remove_loop.simps) simp
  qed
qed

lemma Remove_loop_first:
  "q = pre @ x # post \<Longrightarrow> i \<le> length pre \<Longrightarrow> ID x = ID c \<Longrightarrow>
   \<forall>y\<in>set (drop i pre). ID y \<noteq> ID c \<Longrightarrow> Remove_loop i c q = (pre @ post, True)"
proof (induction i c q rule: Remove_loop.induct)
  case (1 i c q)
  have len: "i < length q" using "1.prems" by simp
  show ?case
  proof (cases "i < length pre")
    case True
    then have qi: "q ! i = pre ! i" using "1.prems"(1) by (simp add: nth_append)
    have "pre ! i \<in> set (drop i pre)" using True
      by (metis Cons_nth_drop_Suc list.set_intros(1))
    with "1.prems"(4) qi have ne: "ID (q ! i) \<noteq> ID c" by auto
    have "set (drop (i + 1) pre) \<subseteq> set (drop i pre)"
      by (simp add: set_drop_subset_set_drop)
    with "1.prems"(4) have "\<forall>y\<in>set (drop (i + 1) pre). ID y \<noteq> ID c" by blast
    with "1.IH" [OF len ne "1.prems"(1) _ "1.prems"(3)] True
    have "Remove_loop (i + 1) c q = (pre @ post, True)" by simp
    with len ne show ?thesis by (subst Remove_loop.simps) simp
  next
    case False
    with "1.prems"(2) have i: "i = length pre" by simp
    with "1.prems"(1,3) have "ID (q ! i) = ID c" by simp
    moreover have "take i q @ drop (i + 1) q = pre @ post" using i "1.prems"(1) by simp
    ultimately show ?thesis using len by (subst Remove_loop.simps) simp
  qed
qed

lemma Remove_loop_unchanged: "Remove_loop i c q = (q', False) \<Longrightarrow> q' = q"
proof (induction i c q rule: Remove_loop.induct)
  case (1 i c q)
  then show ?case
    by (subst (asm) (2) Remove_loop.simps) (auto split: if_splits)
qed

lemma Remove_queue:
  "queue (matchMaker (Remove c s)) = fst (Remove_loop 0 c (queue (matchMaker s)))"
  by (auto simp: Remove_def slog_def split: prod.splits bool.splits dest: Remove_loop_unchanged)

lemma Remove_notify: "notify (matchMaker (Remove c s)) = notify (matchMaker s)"
  by (simp add: Remove_def slog_def split: prod.splits bool.splits)

lemma Remove_clients: "clients (Remove c s) = clients s"
  by (simp add: Remove_def slog_def split: prod.splits bool.splits)

text \<open>
  C10.  \<open>MatchMaker.Remove\<close> deletes at most one pool entry per call: when the
  pool splits into entries \<open>pre\<close> of other identities, a first entry \<open>x\<close> with
  the identity of the given client, and the rest \<open>post\<close> (which may hold
  further entries of that identity), the pool becomes \<open>pre @ post\<close>, so that
  all other entries stay, in their order.  When no entry has the identity,
  nothing changes.  The wake-up token and the registry are never touched.
\<close>

theorem Remove_deletes_oldest_match:
  "(queue (matchMaker s) = pre @ x # post \<and> ID x = ID c \<and> (\<forall>y\<in>set pre. ID y \<noteq> ID c)
      \<longrightarrow> queue (matchMaker (Remove c s)) = pre @ post)
   \<and> ((\<forall>y\<in>set (queue (matchMaker s)). ID y \<noteq> ID c) \<longrightarrow> Remove c s = s)
   \<and> notify (matchMaker (Remove c s)) = notify (matchMaker s)
   \<and> clients (Remove c s) = clients s"
proof (intro conjI impI)
  assume h: "queue (matchMaker s) = pre @ x # post \<and> ID x = ID c \<and> (\<forall>y\<in>set pre. ID y \<noteq> ID c)"
  then have "Remove_loop 0 c (queue (matchMaker s)) = (pre @ post, True)"
    by (intro Remove_loop_first [where x = x]) simp_all
  then show "queue (matchMaker (Remove c s)) = pre @ post"
    by (simp add: Remove_queue)
next
  assume "\<forall>y\<in>set (queue (matchMaker s)). ID y \<noteq> ID c"
  then have "Remove_loop 0 c (queue (matchMaker s)) = (queue (matchMaker s), False)"
    by (intro Remove_loop_none) simp
  then show "Remove c s = s" by (simp add: Remove_def)
qed (simp_all add: Remove_notify Remove_clients)

theorem Remove_deletes_oldest_match_witness:
  "queue (matchMaker (Remove alice2 (Add alice2 (Add alice1 (Add bob init))))) = [bob, alice2]
   \<and> Remove alice1 (Add bob init) = Add bob init"
  using Remove_deletes_oldest_match [of "Add alice2 (Add alice1 (Add bob init))" "[bob]" alice1 "[alice2]" alice2]
        Remove_deletes_oldest_match [of "Add bob init" "[]" bob "[]" alice1]
  by (simp add: Add_def slog_def init_def NewMatchMaker_def alice1_def alice2_def bob_def)

section \<open>Reading the effects\<close>

lemma writes_append: "writes (xs @ ys) = writes xs @ writes ys"
  by (induction xs rule: writes.induct) simp_all

lemma http_errors_append: "http_errors (xs @ ys) = http_errors xs @ http_errors ys"
  by (induction xs rule: http_errors.induct) simp_all

lemma upgrades_append: "upgrades (xs @ ys) = upgrades xs @ upgrades ys"
  by (induction xs rule: upgrades.induct) simp_all

section \<open>Routing\<close>

lemma handleMessage_clients: "clients (handleMessage net msg s) = clients s"
  by (simp add: handleMessage_def Client_WriteJSON_def Conn_WriteJSON_def slog_def
      split: option.splits prod.splits)

lemma handleMessage_matchMaker: "matchMaker (handleMessage net msg s) = matchMaker s"
  by (simp add: handleMessage_def Client_WriteJSON_def Conn_WriteJSON_def slog_def
      split: option.splits prod.splits)

lemma handleMessage_registered:
  "To msg \<noteq> [] \<Longrightarrow> clients s (To msg) = Some target \<Longrightarrow>
   handleMessage net msg s =
     s\<lparr>out := out s @ WriteJSON (Conn target) msg (net (Conn target) msg) #
          (case net (Conn target) msg of None \<Rightarrow> []
           | Some err \<Rightarrow> [Slog LevelError ''Failed to send message'' [(''to'', To msg), (''error'', err)]])\<rparr>"
  by (simp add: handleMessage_def Client_WriteJSON_def Conn_WriteJSON_def slog_def
      split: option.splits)

lemma writes_handleMessage:
  "writes (out (handleMessage net msg s)) =
     writes (out s) @
     (case (if To msg = [] then None else clients s (To msg)) of
        None \<Rightarrow> []
      | Some target \<Rightarrow> [(Conn target, msg, net (Conn target) msg)])"
  by (simp add: handleMessage_def Client_WriteJSON_def Conn_WriteJSON_def slog_def writes_append
      split: option.splits)

lemma lobby_clients: "clients lobby = [''alice'' \<mapsto> alice1, ''bob'' \<mapsto> bob]"
  by (simp add: lobby_def register_def Client_WriteJSON_def Conn_WriteJSON_def slog_def Add_def
      init_def alice1_def bob_def Let_def)

text \<open>
  C7.  \<open>handleMessage\<close> leaves the whole state as it is, with nothing written
  and nothing logged, when \<open>To\<close> is empty or names an identity that the
  registry does not hold.  When the destination is registered and the write
  to it fails, the only effects are that write attempt on the destination's
  connection and one error log record: no frame goes to the sender, and the
  function has no result through which a failure could reach its caller.
\<close>

theorem handleMessage_drops_or_swallows:
  "(To msg = [] \<or> clients s (To msg) = None \<longrightarrow> handleMessage net msg s = s)
   \<and> (To msg \<noteq> [] \<and> clients s (To msg) = Some target \<and> net (Conn target) msg = Some err \<longrightarrow>
        handleMessage net msg s =
          s\<lparr>out := out s @ [WriteJSON (Conn target) msg (Some err),
                             Slog LevelError ''Failed to send message'' [(''to'', To msg), (''error'', err)]]\<rparr>)"
  by (auto simp: handleMessage_registered) (simp_all add: handleMessage_def)

theorem handleMessage_drops_or_swallows_witness:
  "handleMessage all_up (offer\<lparr>To := []\<rparr>) lobby = lobby
   \<and> handleMessage all_up (offer\<lparr>To := ''carol''\<rparr>) lobby = lobby
   \<and> handleMessage bob_down offer lobby =
       lobby\<lparr>out := out lobby @ [WriteJSON 3 offer (Some ''broken pipe''),
          Slog LevelError ''Failed to send message'' [(''to'', ''bob''), (''error'', ''broken pipe'')]]\<rparr>"
  using handleMessage_drops_or_swallows [where msg = "offer\<lparr>To := []\<rparr>" and s = lobby and net = all_up]
        handleMessage_drops_or_swallows [where msg = "offer\<lparr>To := ''carol''\<rparr>" and s = lobby and net = all_up]
        handleMessage_drops_or_swallows [where msg = offer and s = lobby and target = bob
          and net = bob_down and err = "''broken pipe''"]
  by (simp add: lobby_clients offer_def bob_down_def bob_def)

section \<open>The read loop and the transport\<close>

lemma stamp_eq: "m\<lparr>From := sender\<rparr> = \<lparr>Type = Type m, Payload = Payload m, To = To m, From = sender\<rparr>"
  by simp

lemma on_message_clients: "clients (on_message net cid msg s) = clients s"
  by (simp add: on_message_def handleMessage_clients)

lemma read_loop_clients: "clients (fst (read_loop net cid reads s)) = clients s"
  by (induction net cid reads s rule: read_loop.induct)
     (simp_all add: slog_def on_message_clients)

lemma read_loop_matchMaker: "matchMaker (fst (read_loop net cid reads s)) = matchMaker s"
  by (induction net cid reads s rule: read_loop.induct)
     (simp_all add: slog_def on_message_def handleMessage_matchMaker)

lemma writes_read_loop:
  "writes (out (fst (read_loop net cid reads s))) =
     writes (out s) @ spec_deliveries net (clients s) cid reads"
proof (induction net cid reads s rule: read_loop.induct)
  case (1 net cid s)
  show ?case by simp
next
  case (2 net cid err unexpected rs s)
  show ?case by (simp add: slog_def writes_append)
next
  case (3 net cid msg rs s)
  show ?case
    by (simp add: "3.IH" on_message_clients)
       (simp add: on_message_def writes_handleMessage Let_def stamp_eq split: option.splits)
qed

lemma read_loop_leaves: "snd (read_loop net cid reads s) \<longleftrightarrow> (\<exists>err u. ReadErr err u \<in> set reads)"
  by (induction net cid reads s rule: read_loop.induct) auto

lemma read_deadline_append:
  "read_deadline k (xs @ ys) =
     (case read_deadline k ys of Some d \<Rightarrow> Some d | None \<Rightarrow> read_deadline k xs)"
  by (induction xs) (simp_all split: option.splits effect.splits)

lemma read_deadline_handleMessage:
  "read_deadline k (out (handleMessage net msg s)) = read_deadline k (out s)"
  by (simp add: handleMessage_def Client_WriteJSON_def Conn_WriteJSON_def slog_def
      read_deadline_append split: option.splits)

lemma read_deadline_read_loop:
  "read_deadline k (out (fst (read_loop net cid reads s))) = read_deadline k (out s)"
  by (induction net cid reads s rule: read_loop.induct)
     (simp_all add: slog_def on_message_def read_deadline_handleMessage read_deadline_append)

lemma read_deadline_pong: "read_deadline k (out (pong_handler k t s)) = Some (t + pongWait)"
  by (simp add: pong_handler_def read_deadline_append)

lemma pong_handler_keeps:
  "clients (pong_handler k t s) = clients s" "matchMaker (pong_handler k t s) = matchMaker s"
  "writes (out (pong_handler k t s)) = writes (out s)"
  by (simp_all add: pong_handler_def writes_append)

lemma serve_clients: "clients (fst (serve net c as s)) = clients s"
  by (induction net c as s rule: serve.induct)
     (auto simp: on_message_clients pong_handler_keeps slog_def split: arrival.splits sum.splits)

lemma serve_matchMaker: "matchMaker (fst (serve net c as s)) = matchMaker s"
  by (induction net c as s rule: serve.induct)
     (auto simp: on_message_def handleMessage_matchMaker pong_handler_keeps slog_def
        split: arrival.splits sum.splits)

lemma serve_read_results:
  "writes (out (fst (serve net c as s))) =
     writes (out s) @
     spec_deliveries net (clients s) (ID c) (read_results (read_deadline (Conn c) (out s)) as)
   \<and> snd (serve net c as s) =
     (\<exists>err u. ReadErr err u \<in> set (read_results (read_deadline (Conn c) (out s)) as))"
proof (induction as arbitrary: s)
  case Nil
  show ?case by simp
next
  case (Cons x as)
  obtain t a where x: "x = (t, a)" by (cases x)
  show ?case
  proof (cases "expired (Conn c) t s")
    case True
    then show ?thesis
      by (auto simp: x expired_def slog_def writes_append split: option.splits)
  next
    case False
    then have ne: "\<not> (case read_deadline (Conn c) (out s) of None \<Rightarrow> False | Some d' \<Rightarrow> d' < t)"
      by (simp add: expired_def)
    show ?thesis
    proof (cases a)
      case (Frame f)
      show ?thesis
      proof (cases "Unmarshal f")
        case (Inl err)
        with False ne Frame show ?thesis
          by (auto simp: x slog_def writes_append)
      next
        case (Inr msg)
        let ?s' = "fst (read_loop net (ID c) [ReadMsg msg] s)"
        have d: "read_deadline (Conn c) (out ?s') = read_deadline (Conn c) (out s)"
          by (rule read_deadline_read_loop)
        have cl: "clients ?s' = clients s" by (rule read_loop_clients)
        have w: "writes (out ?s') = writes (out s) @ spec_deliveries net (clients s) (ID c) [ReadMsg msg]"
          by (rule writes_read_loop)
        from Cons.IH [of ?s'] d cl w False ne Frame Inr show ?thesis
          by (simp add: x Let_def del: read_loop.simps split: option.splits)
      qed
    next
      case Pong
      from Cons.IH [of "pong_handler (Conn c) t s"] False ne Pong show ?thesis
        by (simp add: x read_deadline_pong pong_handler_keeps)
    next
      case (Broken err u)
      with False ne show ?thesis
        by (auto simp: x slog_def writes_append)
    next
      case Quiet
      from Cons.IH [of s] False ne Quiet show ?thesis
        by (simp add: x)
    qed
  qed
qed

lemma authenticate_accepts:
  "request_token r \<noteq> [] \<Longrightarrow> Validate (request_token r) = Inr p \<Longrightarrow> Subject p \<noteq> [] \<Longrightarrow>
   authenticate Validate r s = (Some (Subject p), s)"
  by (simp add: authenticate_def)

lemma register_clients: "clients (register net c s) = (clients s)(ID c \<mapsto> c)"
  by (simp add: register_def Client_WriteJSON_def Conn_WriteJSON_def slog_def Add_def Let_def)

lemma register_queue: "queue (matchMaker (register net c s)) = queue (matchMaker s) @ [c]"
  by (simp add: register_def Client_WriteJSON_def Conn_WriteJSON_def slog_def Add_def Let_def)

lemma writes_register:
  "writes (out (register net c s)) = writes (out s) @ [(Conn c, init_msg (ID c), net (Conn c) (init_msg (ID c)))]"
  by (simp add: register_def Client_WriteJSON_def Conn_WriteJSON_def slog_def Add_def Let_def
      writes_append)

lemma read_limits_keeps:
  "clients (read_limits k now s) = clients s" "matchMaker (read_limits k now s) = matchMaker s"
  "writes (out (read_limits k now s)) = writes (out s)"
  by (simp_all add: read_limits_def writes_append)



lemma handleConnections_established:
  assumes "request_token r \<noteq> []" "Validate (request_token r) = Inr p" "Subject p \<noteq> []"
  shows "handleConnections Validate net (Inr k) now arrivals r s =
     (let c = \<lparr>ID = Subject p, Conn = k\<rparr>;
          s2 = read_limits k now (register net c (s\<lparr>out := out s @ [Upgrade k]\<rparr>))
      in if snd (serve net c arrivals s2) then cleanup c (fst (serve net c arrivals s2))
         else fst (serve net c arrivals s2))"
proof -
  have auth: "authenticate Validate r s = (Some (Subject p), s)"
    using assms by (simp add: authenticate_accepts)
  show ?thesis
    unfolding handleConnections_def auth
    by (simp add: Let_def split: prod.splits)
qed

lemma lobby_out:
  "writes (out lobby) = [(1, init_msg ''alice'', None), (3, init_msg ''bob'', None)]"
  by (simp add: lobby_def writes_register init_def alice1_def bob_def all_up_def)


section \<open>The sender field and the payload\<close>



lemma round64_examples:
  "round64 9007199254740993 = Some 9007199254740992"
  "round64 9007199254740992 = Some 9007199254740992"
  "round64 (3 / 2) = Some (3 / 2)"
  by code_simp+


lemma decode_examples:
  "decode (WNum 9007199254740993) = Some (JNum 9007199254740992)"
  "decode (WNum 9007199254740992) = Some (JNum 9007199254740992)"
  "decode (WObj [(''sdp'', WStr ''v=0''), (''rate'', WNum (3 / 2))]) =
     Some (JObj [(''rate'', JNum (3 / 2)), (''sdp'', JStr ''v=0'')])"
  by (simp_all add: round64_examples)




section \<open>Messages of type bye\<close>

text \<open>
  C4, as stated, fails: the read loop has no case for the type \<open>bye\<close>.  With
  alice and bob registered, a \<open>bye\<close> that alice addresses to bob is written to
  bob's connection.
\<close>

theorem bye_is_forwarded:
  "Type bye = ''bye'' \<and> To bye = ''bob'' \<and>
   writes (out (fst (read_loop all_up ''alice'' [ReadMsg bye] lobby))) =
     writes (out lobby) @
     [(Conn bob, \<lparr>Type = ''bye'', Payload = JObj [], To = ''bob'', From = ''alice''\<rparr>, None)]"
  unfolding writes_read_loop
  by (simp add: lobby_clients bye_def bob_def all_up_def)

text \<open>
  C4, amended.  Every decoded message, of whatever type, is stamped with the
  sender and handed to \<open>handleMessage\<close>; if its destination is registered it is
  written to the destination's connection.  This holds for \<open>bye\<close> as for any
  other type.
\<close>

theorem read_loop_routes_every_type:
  "fst (read_loop net clientID [ReadMsg msg] s) = handleMessage net (msg\<lparr>From := clientID\<rparr>) s
   \<and> (To msg \<noteq> [] \<and> clients s (To msg) = Some target \<longrightarrow>
        writes (out (fst (read_loop net clientID [ReadMsg msg] s))) =
          writes (out s) @
          [(Conn target, msg\<lparr>From := clientID\<rparr>, net (Conn target) (msg\<lparr>From := clientID\<rparr>))])"
  by (simp add: on_message_def writes_handleMessage)

theorem read_loop_routes_every_type_witness:
  "writes (out (fst (read_loop all_up ''alice'' [ReadMsg bye] lobby))) =
     [(1, init_msg ''alice'', None), (3, init_msg ''bob'', None),
      (3, \<lparr>Type = ''bye'', Payload = JObj [], To = ''bob'', From = ''alice''\<rparr>, None)]"
  using read_loop_routes_every_type [where msg = bye and s = lobby and target = bob
          and net = all_up and clientID = "''alice''", THEN conjunct2]
  by (simp add: lobby_clients lobby_out bye_def bob_def all_up_def)

section \<open>Authentication\<close>

lemma HasPrefix_drop_empty: "HasPrefix s p \<Longrightarrow> drop (length p) s = [] \<longleftrightarrow> s = p"
proof
  assume h: "HasPrefix s p" and d: "drop (length p) s = []"
  from d have "length s \<le> length p" by simp
  then have "take (length p) s = s" by simp
  with h show "s = p" by (simp add: HasPrefix_def)
next
  assume "s = p"
  then show "drop (length p) s = []" by simp
qed

lemma request_token_empty:
  "request_token r = [] \<longleftrightarrow>
     query_token r = [] \<and>
     (\<not> HasPrefix (Authorization r) ''Bearer '' \<or> Authorization r = ''Bearer '')"
proof (cases "query_token r = []")
  case True
  show ?thesis
  proof (cases "HasPrefix (Authorization r) ''Bearer ''")
    case p: True
    have "request_token r = drop (length ''Bearer '') (Authorization r)"
      unfolding request_token_def TrimPrefix_def using True p by (simp del: length_Cons list.size)
    with HasPrefix_drop_empty [OF p] True p show ?thesis by (simp del: length_Cons list.size)
  next
    case False
    with True show ?thesis by (simp add: request_token_def)
  qed
next
  case False
  then show ?thesis by (simp add: request_token_def)
qed

lemma HasPrefix_Bearer [simp]:
  "HasPrefix ''Bearer tok-bob'' ''Bearer ''" "\<not> HasPrefix ''Basic Zm9v'' ''Bearer ''"
  by (simp_all add: HasPrefix_def)

text \<open>
  C8.  The handler answers with one HTTP error of status unauthorized (401),
  performs no upgrade, writes no frame and leaves registry and pool alone in
  each of three cases: no token (the query parameter is absent and the
  \<open>Authorization\<close> header carries no bearer token), a token that the verifier
  refuses, and a verified token with an empty subject.  A query parameter,
  when present, is the token whatever the header says; the header is read
  only when the query parameter is absent.
\<close>

theorem authenticate_rejects:
  "(request_token r = [] \<longrightarrow>
      rejected_with ''Missing authentication token'' s (handleConnections Validate net upgrade now arrivals r s))
   \<and> (request_token r \<noteq> [] \<and> Validate (request_token r) = Inl err \<longrightarrow>
      rejected_with ''Invalid token'' s (handleConnections Validate net upgrade now arrivals r s))
   \<and> (request_token r \<noteq> [] \<and> Validate (request_token r) = Inr p \<and> Subject p = [] \<longrightarrow>
      rejected_with ''Invalid token claims'' s (handleConnections Validate net upgrade now arrivals r s))
   \<and> (request_token r = [] \<longleftrightarrow>
        query_token r = [] \<and>
        (\<not> HasPrefix (Authorization r) ''Bearer '' \<or> Authorization r = ''Bearer ''))
   \<and> (query_token r \<noteq> [] \<longrightarrow> request_token r = query_token r)
   \<and> (query_token r = [] \<and> HasPrefix (Authorization r) ''Bearer '' \<longrightarrow>
        request_token r = drop (length ''Bearer '') (Authorization r))
   \<and> StatusUnauthorized = 401"
proof (intro conjI impI)
  assume "request_token r = []"
  then show "rejected_with ''Missing authentication token'' s (handleConnections Validate net upgrade now arrivals r s)"
    by (simp add: rejected_with_def handleConnections_def authenticate_def slog_def
        http_errors_append upgrades_append writes_append)
next
  assume "request_token r \<noteq> [] \<and> Validate (request_token r) = Inl err"
  then show "rejected_with ''Invalid token'' s (handleConnections Validate net upgrade now arrivals r s)"
    by (simp add: rejected_with_def handleConnections_def authenticate_def slog_def Let_def
        http_errors_append upgrades_append writes_append)
next
  assume "request_token r \<noteq> [] \<and> Validate (request_token r) = Inr p \<and> Subject p = []"
  then show "rejected_with ''Invalid token claims'' s (handleConnections Validate net upgrade now arrivals r s)"
    by (simp add: rejected_with_def handleConnections_def authenticate_def slog_def Let_def
        http_errors_append upgrades_append writes_append)
next
  show "request_token r = [] \<longleftrightarrow>
        query_token r = [] \<and>
        (\<not> HasPrefix (Authorization r) ''Bearer '' \<or> Authorization r = ''Bearer '')"
    by (rule request_token_empty)
next
  assume "query_token r \<noteq> []"
  then show "request_token r = query_token r" by (simp add: request_token_def)
next
  assume "query_token r = [] \<and> HasPrefix (Authorization r) ''Bearer ''"
  then show "request_token r = drop (length ''Bearer '') (Authorization r)"
    unfolding request_token_def TrimPrefix_def by (simp del: length_Cons list.size)
next
  show "StatusUnauthorized = 401" by (simp add: StatusUnauthorized_def)
qed


theorem authenticate_rejects_witness:
  "http_errors (out (handleConnections google all_up (Inr 9) 0 [] basic_request init)) =
     [(''Missing authentication token'', 401)]
   \<and> upgrades (out (handleConnections google all_up (Inr 9) 0 [] basic_request init)) = []
   \<and> http_errors (out (handleConnections google all_up (Inr 9) 0 [] (basic_request\<lparr>query_token := ''garbage''\<rparr>) init)) =
     [(''Invalid token'', 401)]
   \<and> upgrades (out (handleConnections google all_up (Inr 9) 0 [] (basic_request\<lparr>query_token := ''garbage''\<rparr>) init)) = []
   \<and> http_errors (out (handleConnections google all_up (Inr 9) 0 [] (basic_request\<lparr>query_token := ''tok-anon''\<rparr>) init)) =
     [(''Invalid token claims'', 401)]
   \<and> upgrades (out (handleConnections google all_up (Inr 9) 0 [] (basic_request\<lparr>query_token := ''tok-anon''\<rparr>) init)) = []
   \<and> request_token alice_request = ''tok-alice''
   \<and> request_token header_request = ''tok-bob''"
  using authenticate_rejects [where r = basic_request and s = init and Validate = google
          and net = all_up and upgrade = "Inr 9" and now = 0 and arrivals = "[]", THEN conjunct1]
        authenticate_rejects [where r = "basic_request\<lparr>query_token := ''garbage''\<rparr>" and s = init
          and Validate = google and net = all_up and upgrade = "Inr 9" and now = 0 and arrivals = "[]"
          and err = "''idtoken: invalid token''", THEN conjunct2, THEN conjunct1]
        authenticate_rejects [where r = "basic_request\<lparr>query_token := ''tok-anon''\<rparr>" and s = init
          and Validate = google and net = all_up and upgrade = "Inr 9" and now = 0 and arrivals = "[]"
          and p = "\<lparr>Subject = []\<rparr>", THEN conjunct2, THEN conjunct2, THEN conjunct1]
        authenticate_rejects [where r = alice_request,
          THEN conjunct2, THEN conjunct2, THEN conjunct2, THEN conjunct2, THEN conjunct1]
        authenticate_rejects [where r = header_request,
          THEN conjunct2, THEN conjunct2, THEN conjunct2, THEN conjunct2, THEN conjunct2, THEN conjunct1]
  by (simp add: rejected_with_def basic_request_def alice_request_def header_request_def
      request_token_def google_def init_def StatusUnauthorized_def)

section \<open>Teardown\<close>

lemma cleanup_clients: "clients (cleanup c s) = (clients s)(ID c := None)"
  by (simp add: cleanup_def slog_def Remove_clients Let_def)

lemma cleanup_queue:
  "queue (matchMaker (cleanup c s)) = fst (Remove_loop 0 c (queue (matchMaker s)))"
  by (simp add: cleanup_def slog_def Remove_queue Let_def)


lemma read_results_Broken:
  "(t, Broken err unexpected) \<in> set as \<Longrightarrow> \<exists>e u. ReadErr e u \<in> set (read_results d as)"
proof (induction as arbitrary: d)
  case Nil
  then show ?case by simp
next
  case (Cons x as)
  obtain t' a where x: "x = (t', a)" by (cases x)
  show ?case
  proof (cases "x = (t, Broken err unexpected)")
    case True
    then show ?thesis by auto
  next
    case False
    with Cons.prems have "(t, Broken err unexpected) \<in> set as" by simp
    from Cons.IH [OF this] show ?thesis
      by (auto simp: x split: arrival.splits sum.splits)
  qed
qed

lemma serve_leaves_Broken:
  "(t, Broken err unexpected) \<in> set as \<Longrightarrow> snd (serve net c as s)"
  using serve_read_results [of net c as s] read_results_Broken by blast

lemma two_tabs_queue: "queue (matchMaker two_tabs) = [alice1, alice2]"
  by (simp add: two_tabs_def register_queue init_def NewMatchMaker_def)

text \<open>
  C3, as stated, fails.  Let the same user connect twice: the registry then
  holds the second client.  The teardown of the first connection deletes that
  entry although it is not the first client's; and the teardown of the second
  connection, while both wait in the pool, takes the first client out of the
  pool and leaves the second one in.
\<close>

theorem stale_teardown_deletes_newer_entry:
  "clients two_tabs ''alice'' = Some alice2 \<and> alice2 \<noteq> alice1
   \<and> clients (cleanup alice1 two_tabs) ''alice'' = None
   \<and> queue (matchMaker two_tabs) = [alice1, alice2]
   \<and> queue (matchMaker (cleanup alice2 two_tabs)) = [alice2]"
proof -
  have q: "queue (matchMaker two_tabs) = [] @ alice1 # [alice2]"
    by (simp add: two_tabs_def register_queue init_def NewMatchMaker_def)
  have "Remove_loop 0 alice2 (queue (matchMaker two_tabs)) = ([] @ [alice2], True)"
    by (rule Remove_loop_first [OF q]) (simp_all add: alice1_def alice2_def)
  then have "queue (matchMaker (cleanup alice2 two_tabs)) = [alice2]"
    by (simp add: cleanup_queue)
  with q show ?thesis
    by (simp add: cleanup_clients) (simp add: two_tabs_def register_clients alice1_def alice2_def)
qed

text \<open>
  C3, amended.  Teardown deletes the registry entry stored under the client's
  identity, whichever client that entry holds, and removes from the pool the
  oldest entry that carries this identity, if there is one.  It runs whenever
  the read loop of an established connection leaves, as it does on every
  failed read.
\<close>

theorem teardown_is_by_identity:
  "clients (cleanup c s) = (clients s)(ID c := None)
   \<and> (queue (matchMaker s) = pre @ x # post \<and> ID x = ID c \<and> (\<forall>y\<in>set pre. ID y \<noteq> ID c)
        \<longrightarrow> queue (matchMaker (cleanup c s)) = pre @ post)
   \<and> ((\<forall>y\<in>set (queue (matchMaker s)). ID y \<noteq> ID c)
        \<longrightarrow> queue (matchMaker (cleanup c s)) = queue (matchMaker s))
   \<and> (request_token r \<noteq> [] \<and> Validate (request_token r) = Inr p \<and> Subject p \<noteq> []
        \<and> (t, Broken err unexpected) \<in> set arrivals \<longrightarrow>
        handleConnections Validate net (Inr k) now arrivals r s =
          cleanup \<lparr>ID = Subject p, Conn = k\<rparr>
            (fst (serve net \<lparr>ID = Subject p, Conn = k\<rparr> arrivals
                    (read_limits k now
                      (register net \<lparr>ID = Subject p, Conn = k\<rparr> (s\<lparr>out := out s @ [Upgrade k]\<rparr>))))))
   \<and> (request_token r \<noteq> [] \<and> Validate (request_token r) = Inr p \<and> Subject p \<noteq> []
        \<and> snd (serve net \<lparr>ID = Subject p, Conn = k\<rparr> arrivals
                  (read_limits k now
                    (register net \<lparr>ID = Subject p, Conn = k\<rparr> (s\<lparr>out := out s @ [Upgrade k]\<rparr>)))) \<longrightarrow>
        handleConnections Validate net (Inr k) now arrivals r s =
          cleanup \<lparr>ID = Subject p, Conn = k\<rparr>
            (fst (serve net \<lparr>ID = Subject p, Conn = k\<rparr> arrivals
                    (read_limits k now
                      (register net \<lparr>ID = Subject p, Conn = k\<rparr> (s\<lparr>out := out s @ [Upgrade k]\<rparr>))))))
   \<and> (ReadErr err unexpected \<in> set reads \<longrightarrow> snd (read_loop net clientID reads s))"
proof (intro conjI impI)
  show "clients (cleanup c s) = (clients s)(ID c := None)" by (rule cleanup_clients)
next
  assume "queue (matchMaker s) = pre @ x # post \<and> ID x = ID c \<and> (\<forall>y\<in>set pre. ID y \<noteq> ID c)"
  then have "Remove_loop 0 c (queue (matchMaker s)) = (pre @ post, True)"
    by (intro Remove_loop_first [where x = x]) simp_all
  then show "queue (matchMaker (cleanup c s)) = pre @ post" by (simp add: cleanup_queue)
next
  assume "\<forall>y\<in>set (queue (matchMaker s)). ID y \<noteq> ID c"
  then have "Remove_loop 0 c (queue (matchMaker s)) = (queue (matchMaker s), False)"
    by (intro Remove_loop_none) simp
  then show "queue (matchMaker (cleanup c s)) = queue (matchMaker s)" by (simp add: cleanup_queue)
next
  let ?c = "\<lparr>ID = Subject p, Conn = k\<rparr>"
  let ?s2 = "read_limits k now (register net ?c (s\<lparr>out := out s @ [Upgrade k]\<rparr>))"
  assume h: "request_token r \<noteq> [] \<and> Validate (request_token r) = Inr p \<and> Subject p \<noteq> []
        \<and> (t, Broken err unexpected) \<in> set arrivals"
  then have "snd (serve net ?c arrivals ?s2)" using serve_leaves_Broken by blast
  with h show "handleConnections Validate net (Inr k) now arrivals r s =
          cleanup ?c (fst (serve net ?c arrivals ?s2))"
    by (simp add: handleConnections_established Let_def)
next
  let ?c = "\<lparr>ID = Subject p, Conn = k\<rparr>"
  let ?s2 = "read_limits k now (register net ?c (s\<lparr>out := out s @ [Upgrade k]\<rparr>))"
  assume h: "request_token r \<noteq> [] \<and> Validate (request_token r) = Inr p \<and> Subject p \<noteq> []
        \<and> snd (serve net ?c arrivals ?s2)"
  then show "handleConnections Validate net (Inr k) now arrivals r s =
          cleanup ?c (fst (serve net ?c arrivals ?s2))"
    by (simp add: handleConnections_established Let_def)
next
  assume "ReadErr err unexpected \<in> set reads"
  then show "snd (read_loop net clientID reads s)"
    using read_loop_leaves by blast
qed

theorem teardown_is_by_identity_witness:
  "clients (cleanup alice1 two_tabs) ''alice'' = None
   \<and> queue (matchMaker (cleanup alice2 two_tabs)) = [alice2]
   \<and> queue (matchMaker (cleanup bob two_tabs)) = [alice1, alice2]
   \<and> clients (handleConnections google all_up (Inr 1) 0 [(5, Broken ''EOF'' False)] alice_request init) = Map.empty
   \<and> queue (matchMaker (handleConnections google all_up (Inr 1) 0 [(5, Broken ''EOF'' False)] alice_request init)) = []
   \<and> snd (read_loop all_up ''alice'' [ReadErr ''EOF'' False] init)"
proof -
  define s3 where "s3 = fst (serve all_up \<lparr>ID = ''alice'', Conn = 1\<rparr> [(5, Broken ''EOF'' False)]
                (read_limits 1 0
                  (register all_up \<lparr>ID = ''alice'', Conn = 1\<rparr> (init\<lparr>out := out init @ [Upgrade 1]\<rparr>))))"
  have q3: "queue (matchMaker s3) = [] @ alice1 # []"
    unfolding s3_def serve_matchMaker read_limits_keeps register_queue
    by (simp add: init_def NewMatchMaker_def alice1_def)
  have c3: "clients s3 = [''alice'' \<mapsto> alice1]"
    unfolding s3_def serve_clients read_limits_keeps register_clients
    by (simp add: init_def alice1_def)
  have hc: "handleConnections google all_up (Inr 1) 0 [(5, Broken ''EOF'' False)] alice_request init =
        cleanup alice1 s3"
    using teardown_is_by_identity [where r = alice_request and Validate = google
        and p = "\<lparr>Subject = ''alice''\<rparr>" and arrivals = "[(5, Broken ''EOF'' False)]"
        and t = 5 and err = "''EOF''" and unexpected = False and net = all_up and k = 1
        and now = 0 and s = init,
        THEN conjunct2, THEN conjunct2, THEN conjunct2, THEN conjunct1]
    unfolding s3_def
    by (simp add: alice_request_def request_token_def google_def alice1_def del: serve.simps)
  have hc': "snd (serve all_up \<lparr>ID = ''alice'', Conn = 1\<rparr> [(5, Broken ''EOF'' False)]
                (read_limits 1 0
                  (register all_up \<lparr>ID = ''alice'', Conn = 1\<rparr> (init\<lparr>out := out init @ [Upgrade 1]\<rparr>))))
      \<longrightarrow> handleConnections google all_up (Inr 1) 0 [(5, Broken ''EOF'' False)] alice_request init =
        cleanup alice1 s3"
    using teardown_is_by_identity [where r = alice_request and Validate = google
        and p = "\<lparr>Subject = ''alice''\<rparr>" and arrivals = "[(5, Broken ''EOF'' False)]"
        and net = all_up and k = 1 and now = 0 and s = init,
        THEN conjunct2, THEN conjunct2, THEN conjunct2, THEN conjunct2, THEN conjunct1]
    unfolding s3_def
    by (simp add: alice_request_def request_token_def google_def alice1_def del: serve.simps)
  have w0: "snd (read_loop all_up ''alice'' [ReadErr ''EOF'' False] init)"
    using teardown_is_by_identity [where reads = "[ReadErr ''EOF'' False]" and err = "''EOF''"
        and unexpected = False and net = all_up and clientID = "''alice''" and s = init,
        THEN conjunct2, THEN conjunct2, THEN conjunct2, THEN conjunct2, THEN conjunct2]
    by simp
  have w1: "clients (cleanup alice1 two_tabs) ''alice'' = None"
    using teardown_is_by_identity [where c = alice1 and s = two_tabs, THEN conjunct1]
    by (simp add: alice1_def)
  have w2: "queue (matchMaker (cleanup alice2 two_tabs)) = [alice2]"
    using teardown_is_by_identity [where c = alice2 and s = two_tabs and pre = "[]"
        and x = alice1 and post = "[alice2]", THEN conjunct2, THEN conjunct1]
    by (simp add: two_tabs_queue alice1_def alice2_def)
  have w3: "queue (matchMaker (cleanup bob two_tabs)) = [alice1, alice2]"
    using teardown_is_by_identity [where c = bob and s = two_tabs,
        THEN conjunct2, THEN conjunct2, THEN conjunct1]
    by (simp add: two_tabs_queue alice1_def alice2_def bob_def)
  have w4: "clients (cleanup alice1 s3) = Map.empty"
    using teardown_is_by_identity [where c = alice1 and s = s3, THEN conjunct1]
    by (simp add: c3 alice1_def)
  have w5: "queue (matchMaker (cleanup alice1 s3)) = []"
    using teardown_is_by_identity [where c = alice1 and s = s3 and pre = "[]" and x = alice1
        and post = "[]", THEN conjunct2, THEN conjunct1] q3
    by simp
  show ?thesis
    unfolding hc using w0 w1 w2 w3 w4 w5 by simp
qed

section \<open>Liveness\<close>

lemma alice_request_accepted:
  "request_token alice_request \<noteq> []"
  "google (request_token alice_request) = Inr \<lparr>Subject = ''alice''\<rparr>"
  "Subject \<lparr>Subject = ''alice''\<rparr> \<noteq> []"
  by (simp_all add: alice_request_def request_token_def google_def)


lemma alice_connects:
  "handleConnections google net (Inr k) now arrivals alice_request s =
     (let c = \<lparr>ID = ''alice'', Conn = k\<rparr>;
          s2 = read_limits k now (register net c (s\<lparr>out := out s @ [Upgrade k]\<rparr>))
      in if snd (serve net c arrivals s2) then cleanup c (fst (serve net c arrivals s2))
         else fst (serve net c arrivals s2))"
  using handleConnections_established [where r = alice_request and Validate = google
      and p = "\<lparr>Subject = ''alice''\<rparr>" and net = net and k = k and now = now
      and arrivals = arrivals and s = s]
  by (simp add: alice_request_accepted)

lemma first_tab_eq:
  "first_tab = read_limits 1 0 (register all_up alice1 (init\<lparr>out := out init @ [Upgrade 1]\<rparr>))"
  unfolding first_tab_def alice_connects
  by (simp add: alice1_def)

lemma both_tabs_eq:
  "both_tabs = read_limits 2 0 (register all_up alice2 (first_tab\<lparr>out := out first_tab @ [Upgrade 2]\<rparr>))"
  unfolding both_tabs_def alice_connects
  by (simp add: alice2_def)

lemma first_tab_pool:
  "queue (matchMaker first_tab) = [alice1]" "clients first_tab = [''alice'' \<mapsto> alice1]"
  by (simp_all add: first_tab_eq read_limits_keeps register_queue register_clients init_def
      NewMatchMaker_def alice1_def)

lemma both_tabs_pool:
  "queue (matchMaker both_tabs) = [alice1, alice2]" "clients both_tabs = [''alice'' \<mapsto> alice2]"
  "notify (matchMaker both_tabs)"
  by (simp_all add: both_tabs_eq read_limits_keeps register_queue register_clients first_tab_pool
      alice2_def)
     (simp add: read_limits_def register_def Client_WriteJSON_def Conn_WriteJSON_def slog_def
        Add_def Let_def)






section \<open>Match notifications\<close>


lemma Run_notify_clients: "clients (Run_notify net c1 c2 s) = clients s"
  by (simp add: Run_notify_def Client_WriteJSON_def Conn_WriteJSON_def slog_def Let_def
      split: option.splits)

lemma writes_Run_notify:
  "writes (out (Run_notify net c1 c2 s)) =
     writes (out s) @
     [(Conn c1, match_msg (ID c2), net (Conn c1) (match_msg (ID c2))),
      (Conn c2, match_msg (ID c1), net (Conn c2) (match_msg (ID c1)))]"
  by (simp add: Run_notify_def Client_WriteJSON_def Conn_WriteJSON_def slog_def Let_def
      writes_append split: option.splits)

text \<open>
  C6, as stated, fails for the matching loop with a pending slot: when the
  write to the pending client fails, the loop continues with the new client as
  pending and never attempts the write to the new client.
\<close>

theorem pending_slot_skips_second_write:
  "isClientActive alice1 lobby \<and> isClientActive bob lobby
   \<and> writes (out (snd (matchingLoop_body alice_down (Some alice1) bob lobby))) =
       writes (out lobby) @ [(Conn alice1, match_msg ''bob'', Some ''broken pipe'')]
   \<and> fst (matchingLoop_body alice_down (Some alice1) bob lobby) = Some bob"
  by (simp add: matchingLoop_body_def isClientActive_def lobby_clients Conn_WriteJSON_def
      slog_def Let_def writes_append alice_down_def alice1_def bob_def)

text \<open>
  C6, amended.  \<open>MatchMaker.Run\<close> attempts both writes of a pairing, each with
  the other side's identity as payload, whatever the result of either write.
  The matching loop with a pending slot attempts the second write exactly when
  the first one succeeded; after a failed first write the new client becomes
  the pending one.  A failure of the second write has no effect on the first.
\<close>

theorem match_writes:
  "writes (out (Run_notify net c1 c2 s)) =
     writes (out s) @
     [(Conn c1, match_msg (ID c2), net (Conn c1) (match_msg (ID c2))),
      (Conn c2, match_msg (ID c1), net (Conn c2) (match_msg (ID c1)))]
   \<and> (isClientActive p s \<and> isClientActive c s \<and> ID p \<noteq> ID c
        \<and> net (Conn p) (match_msg (ID c)) = None \<longrightarrow>
        writes (out (snd (matchingLoop_body net (Some p) c s))) =
          writes (out s) @
          [(Conn p, match_msg (ID c), None),
           (Conn c, match_msg (ID p), net (Conn c) (match_msg (ID p)))]
        \<and> fst (matchingLoop_body net (Some p) c s) = None)
   \<and> (isClientActive p s \<and> isClientActive c s \<and> ID p \<noteq> ID c
        \<and> net (Conn p) (match_msg (ID c)) = Some e \<longrightarrow>
        writes (out (snd (matchingLoop_body net (Some p) c s))) =
          writes (out s) @ [(Conn p, match_msg (ID c), Some e)]
        \<and> fst (matchingLoop_body net (Some p) c s) = Some c)"
  by (simp add: writes_Run_notify)
     (simp add: matchingLoop_body_def Conn_WriteJSON_def slog_def Let_def writes_append
        split: option.splits)

theorem match_writes_witness:
  "writes (out (Run_notify alice_down alice1 bob lobby)) =
     writes (out lobby) @
     [(1, match_msg ''bob'', Some ''broken pipe''), (3, match_msg ''alice'', None)]
   \<and> writes (out (snd (matchingLoop_body bob_down (Some alice1) bob lobby))) =
       writes (out lobby) @
       [(1, match_msg ''bob'', None), (3, match_msg ''alice'', Some ''broken pipe'')]
   \<and> fst (matchingLoop_body bob_down (Some alice1) bob lobby) = None
   \<and> writes (out (snd (matchingLoop_body alice_down (Some alice1) bob lobby))) =
       writes (out lobby) @ [(1, match_msg ''bob'', Some ''broken pipe'')]
   \<and> fst (matchingLoop_body alice_down (Some alice1) bob lobby) = Some bob"
  using match_writes [where net = alice_down and ?c1.0 = alice1 and ?c2.0 = bob and s = lobby
          and p = alice1 and c = bob and e = "''broken pipe''"]
        match_writes [where net = bob_down and ?c1.0 = alice1 and ?c2.0 = bob and s = lobby
          and p = alice1 and c = bob]
  by (simp add: isClientActive_def lobby_clients alice_down_def bob_down_def alice1_def bob_def)

section \<open>Schedules of the pool\<close>

lemma pairings_append: "pairings (xs @ ys) = pairings xs @ pairings ys"
  by (induction xs rule: pairings.induct) simp_all





lemma pairings_Run_notify:
  "pairings (out (Run_notify net c1 c2 s)) = pairings (out s) @ [(ID c1, ID c2)]"
  by (simp add: Run_notify_def Client_WriteJSON_def Conn_WriteJSON_def slog_def Let_def
      pairings_append split: option.splits)


lemma pairings_register: "pairings (out (register net c s)) = pairings (out s)"
  by (simp add: register_def Client_WriteJSON_def Conn_WriteJSON_def slog_def Add_def Let_def
      pairings_append)

lemma both_tabs_out:
  "pairings (out both_tabs) = []"
  "writes (out both_tabs) = [(1, init_msg ''alice'', None), (2, init_msg ''alice'', None)]"
  by (simp_all add: both_tabs_eq first_tab_eq read_limits_def pairings_append pairings_register
      writes_append writes_register init_def alice1_def alice2_def all_up_def)

text \<open>
  C1.  \<open>MatchMaker.Run\<close> pairs a user with itself.  Two upgrade requests that
  carry the same valid token leave two clients of one identity in the pool,
  one behind the other.  The next turn of \<open>Run\<close> pops both and writes to each
  a \<open>match\<close> whose payload is its own identity.  On the same registry and the
  same two clients the earlier matching loop with a pending slot writes
  nothing.
\<close>

theorem one_user_is_matched_with_itself:
  "both_tabs = handleConnections google all_up (Inr 2) 0 [] alice_request
                 (handleConnections google all_up (Inr 1) 0 [] alice_request init)
   \<and> queue (matchMaker both_tabs) = [alice1, alice2]
   \<and> ID alice1 = ''alice'' \<and> ID alice2 = ''alice''
   \<and> pairings (out (fst (exec all_up [EvRun, EvRun, EvRun] (both_tabs, Waiting)))) = [(''alice'', ''alice'')]
   \<and> writes (out (fst (exec all_up [EvRun, EvRun, EvRun] (both_tabs, Waiting)))) =
       [(1, init_msg ''alice'', None), (2, init_msg ''alice'', None),
        (1, match_msg ''alice'', None), (2, match_msg ''alice'', None)]
   \<and> writes (out (snd (matchingLoop all_up None [alice1, alice2] both_tabs))) =
       [(1, init_msg ''alice'', None), (2, init_msg ''alice'', None)]"
proof -
  have e: "fst (exec all_up [EvRun, EvRun, EvRun] (both_tabs, Waiting)) =
      Run_notify all_up alice1 alice2
        (both_tabs\<lparr>matchMaker := (matchMaker both_tabs)\<lparr>notify := False, queue := []\<rparr>\<rparr>)"
    using both_tabs_pool by (simp add: exec_def)
  have m: "snd (matchingLoop all_up None [alice1, alice2] both_tabs) =
      slog LevelInfo ''Skipping disconnected client'' [(''client_id'', ''alice'')] both_tabs"
    by (simp add: matchingLoop_body_def isClientActive_def both_tabs_pool slog_def
        alice1_def alice2_def)
  show ?thesis
    unfolding e m
    by (simp add: pairings_Run_notify writes_Run_notify both_tabs_out both_tabs_pool
        slog_def writes_append)
       (simp add: both_tabs_def first_tab_def alice1_def alice2_def all_up_def)
qed

section \<open>Two clients and one pairing\<close>









end
